theory Spec2Isabelle
  imports Main
begin

section \<open>Call signaling and session lifecycle of Sociala\<close>

text \<open>
  The repository holds the Next.js client of the calling system (the hooks
  \<open>usePresence\<close> and \<open>useWebRTC\<close>) and the README of its Django backend. The
  backend's own code (call records, presence registry, signaling relay) is not part
  of the sources; those components are modelled from the specification and every
  such definition says so. The two hooks are embedded from their TypeScript source.
\<close>

subsection \<open>Shared vocabulary\<close>

type_synonym uid = nat
type_synonym call_id = nat
type_synonym room_id = nat
type_synonym chan = nat
type_synonym time = int

datatype call_kind = Audio | Video

text \<open>The error taxonomy of section 7 of the specification.\<close>

datatype error =
  Unauthorized | Forbidden | NotFound | InvalidTransition | InvalidReceiver
  | RoomFull | RoomClosed

subsection \<open>Call Record Store and Lifecycle Controller\<close>

text \<open>
  The status column of the calls table (README, Calls Table:
  initiated/ringing/accepted/rejected/ended/missed/cancelled).
\<close>

datatype status = Initiated | Ringing | Accepted | Rejected | Cancelled | Missed | Ended

text \<open>
  Modelled from the spec: the events and actors of the table in section 4.4 (the
  event \<open>initiate\<close> is \<open>create\<close> below), and the Call Record of section 3, whose
  fields are the columns of the README's calls table.
\<close>

datatype event = EvRinging | EvAccept | EvReject | EvCancel | EvEnd | EvTimeout

datatype actor = User uid | System

record call_record =
  cid :: call_id
  caller :: uid
  receiver :: uid
  kind :: call_kind
  status :: status
  room :: room_id
  initiated_at :: time
  ringing_at :: "time option"
  accepted_at :: "time option"
  ended_at :: "time option"
  duration :: "time option"

text \<open>
  Modelled from the spec: the Call Record Store of section 4.1. Records are never
  deleted; the store keeps them in creation order together with the counter from
  which identifiers are drawn.
\<close>

record store =
  calls :: "call_record list"
  next_id :: nat

definition empty_store :: store where
  "empty_store = \<lparr>calls = [], next_id = 0\<rparr>"

text \<open>
  Modelled from the spec: the backend's call views are missing from the sources.
  Column "Legal from" of the table in section 4.4.
\<close>

fun legal_from :: "event \<Rightarrow> status \<Rightarrow> bool" where
  "legal_from EvRinging s = (s = Initiated)"
| "legal_from EvAccept s = (s = Ringing \<or> s = Initiated)"
| "legal_from EvReject s = (s = Ringing \<or> s = Initiated)"
| "legal_from EvCancel s = (s = Ringing \<or> s = Initiated)"
| "legal_from EvEnd s = (s = Accepted)"
| "legal_from EvTimeout s = (s = Ringing \<or> s = Initiated)"

text \<open>
  Modelled from the spec: the participants of a call. Sections 4.1 and 7 keep
  Forbidden for an actor who is neither the caller nor the receiver of the call; the
  timer of section 5 is the system's own and is no requesting user.
\<close>

fun participant :: "actor \<Rightarrow> call_record \<Rightarrow> bool" where
  "participant (User u) r = (u = caller r \<or> u = receiver r)"
| "participant System r = True"

text \<open>
  Modelled from the spec: column "Actor" of the table in section 4.4, the actor from
  whom the state machine takes the event.
\<close>

fun named_actor :: "event \<Rightarrow> actor \<Rightarrow> call_record \<Rightarrow> bool" where
  "named_actor EvRinging (User u) r = (u = caller r \<or> u = receiver r)"
| "named_actor EvAccept (User u) r = (u = receiver r)"
| "named_actor EvReject (User u) r = (u = receiver r)"
| "named_actor EvCancel (User u) r = (u = caller r)"
| "named_actor EvEnd (User u) r = (u = caller r \<or> u = receiver r)"
| "named_actor EvTimeout (User u) r = False"
| "named_actor EvTimeout System r = True"
| "named_actor e System r = False"

text \<open>
  Modelled from the spec: column "Effect" of the table in section 4.4. The duration
  is ended_at minus accepted_at, null if the call was never accepted.
\<close>

fun apply_event :: "event \<Rightarrow> time \<Rightarrow> call_record \<Rightarrow> call_record" where
  "apply_event EvRinging now r = r\<lparr>status := Ringing, ringing_at := Some now\<rparr>"
| "apply_event EvAccept now r = r\<lparr>status := Accepted, accepted_at := Some now\<rparr>"
| "apply_event EvReject now r = r\<lparr>status := Rejected\<rparr>"
| "apply_event EvCancel now r = r\<lparr>status := Cancelled\<rparr>"
| "apply_event EvEnd now r =
     r\<lparr>status := Ended, ended_at := Some now,
       duration := (case accepted_at r of None \<Rightarrow> None | Some a \<Rightarrow> Some (now - a))\<rparr>"
| "apply_event EvTimeout now r = r\<lparr>status := Missed\<rparr>"

text \<open>
  Modelled from the spec: \<open>get(call_id)\<close> of section 4.1, and the write of a record
  in place of the one with its identifier.
\<close>

definition get :: "store \<Rightarrow> call_id \<Rightarrow> call_record option" where
  "get st c = find (\<lambda>r. cid r = c) (calls st)"

definition put :: "call_record \<Rightarrow> call_record list \<Rightarrow> call_record list" where
  "put r' rs = map (\<lambda>r. if cid r = cid r' then r' else r) rs"

text \<open>
  Modelled from the spec: \<open>create(caller, receiver, kind)\<close> of section 4.1. The
  account store is external, so the test "the receiver resolves to a real user" is the
  parameter \<open>is_user\<close>. The spec only says that the room identifier is unique per
  call; it is drawn from the store's counter.
\<close>

definition create ::
  "(uid \<Rightarrow> bool) \<Rightarrow> store \<Rightarrow> uid \<Rightarrow> uid \<Rightarrow> call_kind \<Rightarrow> time \<Rightarrow> (error + call_record) \<times> store" where
  "create is_user st a b k now =
     (if \<not> is_user b \<or> b = a then (Inl InvalidReceiver, st)
      else
        let r = \<lparr>cid = next_id st, caller = a, receiver = b, kind = k, status = Initiated,
                 room = next_id st, initiated_at = now, ringing_at = None,
                 accepted_at = None, ended_at = None, duration = None\<rparr>
        in (Inr r, st\<lparr>calls := calls st @ [r], next_id := Suc (next_id st)\<rparr>))"

text \<open>
  Modelled from the spec: \<open>transition(call_id, event, actor)\<close> of section 4.1,
  failing with NotFound, Forbidden and InvalidTransition in the order the section
  lists them. Forbidden goes to an actor who is no participant of the call, and to
  nobody else. An event that the state machine of section 4.4 does not take, because
  it is not legal from the current status or because the table gives it to another
  actor, fails with InvalidTransition. A failed transition returns the store it was
  given.
\<close>

definition transition ::
  "store \<Rightarrow> call_id \<Rightarrow> event \<Rightarrow> actor \<Rightarrow> time \<Rightarrow> (error + call_record) \<times> store" where
  "transition st c e a now =
     (case get st c of
        None \<Rightarrow> (Inl NotFound, st)
      | Some r \<Rightarrow>
          if \<not> participant a r then (Inl Forbidden, st)
          else if \<not> legal_from e (status r) \<or> \<not> named_actor e a r
            then (Inl InvalidTransition, st)
          else let r' = apply_event e now r
               in (Inr r', st\<lparr>calls := put r' (calls st)\<rparr>))"

text \<open>
  The edges of the state machine as the table of section 4.4 gives them: every event
  but \<open>ringing\<close> and \<open>end\<close> is legal from both \<open>initiated\<close> and \<open>ringing\<close>.
\<close>

fun edge :: "status \<Rightarrow> status \<Rightarrow> bool" where
  "edge Initiated t = (t = Ringing \<or> t = Accepted \<or> t = Rejected \<or> t = Cancelled \<or> t = Missed)"
| "edge Ringing t = (t = Accepted \<or> t = Rejected \<or> t = Cancelled \<or> t = Missed)"
| "edge Accepted t = (t = Ended)"
| "edge s t = False"

text \<open>Operations on the store, and the stores that a history of operations reaches.\<close>

datatype op =
  Create uid uid call_kind time
  | Transition call_id event actor time

fun exec :: "(uid \<Rightarrow> bool) \<Rightarrow> op \<Rightarrow> store \<Rightarrow> store" where
  "exec is_user (Create a b k now) st = snd (create is_user st a b k now)"
| "exec is_user (Transition c e a now) st = snd (transition st c e a now)"

fun run :: "(uid \<Rightarrow> bool) \<Rightarrow> op list \<Rightarrow> store \<Rightarrow> store" where
  "run is_user [] st = st"
| "run is_user (x # xs) st = run is_user xs (exec is_user x st)"

text \<open>
  A call that has been answered or has reached a terminal status other than
  \<open>missed\<close>.
\<close>

definition settled :: "status \<Rightarrow> bool" where
  "settled s = (s = Accepted \<or> s = Rejected \<or> s = Cancelled \<or> s = Ended)"

text \<open>A small population and the stores used to exercise the operations.\<close>

definition demo_users :: "uid \<Rightarrow> bool" where
  "demo_users u = (u = 1 \<or> u = 2 \<or> u = 3)"

definition demo_store :: store where
  "demo_store = snd (create demo_users empty_store 1 2 Video 0)"

definition demo_call :: call_record where
  "demo_call = \<lparr>cid = 0, caller = 1, receiver = 2, kind = Video, status = Initiated,
                 room = 0, initiated_at = 0, ringing_at = None,
                 accepted_at = None, ended_at = None, duration = None\<rparr>"

definition accepted_store :: store where
  "accepted_store = snd (transition demo_store 0 EvAccept (User 2) 5)"

subsection \<open>The presence hook (nextjs-frontend/src/hooks/usePresence.ts)\<close>

text \<open>\<open>WebSocket.readyState\<close>.\<close>

datatype ready_state = CONNECTING | OPEN | CLOSING | CLOSED

text \<open>
  A JavaScript value as \<open>JSON.parse\<close> or the read of a missing property yields it.
\<close>

datatype js =
  JUndefined | JNull | JBool bool | JNum int | JStr string
  | JArr "js list" | JObj "(string \<times> js) list"

text \<open>
  \<open>data.k\<close> for a parsed value other than \<open>null\<close> and a key that no array or
  string has: the property of an object (of a repeated key \<open>JSON.parse\<close> keeps the
  last), \<open>undefined\<close> otherwise.
\<close>

fun field :: "js \<Rightarrow> string \<Rightarrow> js" where
  "field (JObj kvs) k = (case map_of (rev kvs) k of None \<Rightarrow> JUndefined | Some v \<Rightarrow> v)"
| "field d k = JUndefined"

text \<open>
  Interface \<open>CallData\<close> of \<open>useWebRTC\<close>. The fields \<open>id\<close>, \<open>room_id\<close>,
  \<open>caller_username\<close>, \<open>receiver_username\<close>, \<open>call_type\<close> and \<open>status\<close> carry the
  prefix \<open>cd_\<close>, since \<open>id\<close> and \<open>status\<close> are taken. The interface types them as
  strings, but they are filled from parsed JSON unchecked, so they hold any value.
\<close>

record call_data =
  cd_id :: js
  cd_room_id :: js
  cd_caller_username :: js
  cd_receiver_username :: js
  cd_call_type :: js
  cd_status :: js

text \<open>
  A presence socket: its \<open>readyState\<close>, the \<open>pingInterval\<close> variable of the
  closure that \<open>setupPresenceWebSocket\<close> built around it, and the number of
  \<open>{type: 'ping'}\<close> frames handed to \<open>ws.send\<close>.
\<close>

record psock =
  readyState :: ready_state
  pingInterval :: "nat option"
  pings_sent :: nat

text \<open>
  The state of the hook: the React state \<open>incomingCall\<close>, the three refs, and the
  browser objects the hook creates. Sockets are numbered in the order of
  \<open>new WebSocket\<close>; \<open>timeouts\<close> are the pending \<open>setTimeout\<close> tasks with their
  delay, \<open>intervals\<close> the active \<open>setInterval\<close> tasks; \<open>next_timer\<close> is the
  browser's next timer identifier (identifiers are positive, so a stored identifier
  is truthy). \<open>refreshInterval\<close> is the variable \<open>interval\<close> of the running effect.
  The list \<open>onlineUsers\<close> and its loader only talk to the REST API and are left out.
\<close>

record presence =
  incomingCall :: "call_data option"
  wsRef :: "nat option"
  reconnectTimeoutRef :: "nat option"
  shouldReconnectRef :: bool
  sockets :: "nat \<Rightarrow> psock"
  n_sockets :: nat
  timeouts :: "(nat \<times> nat) list"
  intervals :: "nat list"
  next_timer :: nat
  refreshInterval :: "nat option"

definition presence0 :: presence where
  "presence0 =
     \<lparr>incomingCall = None, wsRef = None, reconnectTimeoutRef = None,
      shouldReconnectRef = True,
      sockets = (\<lambda>w. \<lparr>readyState = CLOSED, pingInterval = None, pings_sent = 0\<rparr>),
      n_sockets = 0, timeouts = [], intervals = [], next_timer = 1,
      refreshInterval = None\<rparr>"

text \<open>\<open>!token\<close>: the cookie is absent or the empty string.\<close>

definition no_token :: "string option \<Rightarrow> bool" where
  "no_token tok = (tok = None \<or> tok = Some [])"

text \<open>\<open>if (id)\<close> on a timer identifier held in an optional variable.\<close>

definition truthy :: "nat option \<Rightarrow> bool" where
  "truthy v = (case v of None \<Rightarrow> False | Some i \<Rightarrow> i \<noteq> 0)"

definition clearTimeout :: "nat option \<Rightarrow> (nat \<times> nat) list \<Rightarrow> (nat \<times> nat) list" where
  "clearTimeout v ts = (case v of None \<Rightarrow> ts | Some i \<Rightarrow> filter (\<lambda>x. fst x \<noteq> i) ts)"

definition clearInterval :: "nat option \<Rightarrow> nat list \<Rightarrow> nat list" where
  "clearInterval v ivs = (case v of None \<Rightarrow> ivs | Some i \<Rightarrow> removeAll i ivs)"

text \<open>
  \<open>setupPresenceWebSocket\<close> (lines 32 to 45 and 101 to 104): it returns at once
  without a token or with the flag cleared, and when the socket in \<open>wsRef\<close> is open
  or connecting; otherwise it constructs a socket and stores it in \<open>wsRef\<close>.
\<close>

definition setupPresenceWebSocket :: "string option \<Rightarrow> presence \<Rightarrow> presence" where
  "setupPresenceWebSocket tok p =
     (if no_token tok \<or> \<not> shouldReconnectRef p then p
      else if (case wsRef p of
                 None \<Rightarrow> False
               | Some w \<Rightarrow> readyState (sockets p w) = OPEN
                           \<or> readyState (sockets p w) = CONNECTING) then p
      else p\<lparr>sockets := (sockets p)(n_sockets p :=
                 \<lparr>readyState = CONNECTING, pingInterval = None, pings_sent = 0\<rparr>),
             wsRef := Some (n_sockets p),
             n_sockets := Suc (n_sockets p)\<rparr>)"

text \<open>\<open>handleOpen\<close> (lines 49 to 57) on socket \<open>w\<close>, which the browser has opened.\<close>

definition handleOpen :: "nat \<Rightarrow> presence \<Rightarrow> presence" where
  "handleOpen w p =
     p\<lparr>sockets := (sockets p)(w := (sockets p w)
            \<lparr>readyState := OPEN, pingInterval := Some (next_timer p)\<rparr>),
       intervals := next_timer p # intervals p,
       next_timer := Suc (next_timer p)\<rparr>"

text \<open>The callback of the keep-alive interval of socket \<open>w\<close> (lines 52 to 56).\<close>

definition pingTick :: "nat \<Rightarrow> presence \<Rightarrow> presence" where
  "pingTick w p =
     (if readyState (sockets p w) = OPEN
      then p\<lparr>sockets := (sockets p)(w := (sockets p w)
                 \<lparr>pings_sent := Suc (pings_sent (sockets p w))\<rparr>)\<rparr>
      else p)"

text \<open>
  \<open>handleMessage\<close> (lines 59 to 84) on a received frame: \<open>None\<close> is a text that
  \<open>JSON.parse\<close> refuses, and on \<open>null\<close> the read of \<open>data.type\<close> throws; both leave
  the handler before the \<open>switch\<close>. The cases compare \<open>data.type\<close> by \<open>===\<close>.
\<close>

definition handleMessage :: "js option \<Rightarrow> presence \<Rightarrow> presence" where
  "handleMessage frame p =
     (case frame of
        None \<Rightarrow> p
      | Some data \<Rightarrow>
          if data = JNull then p
          else if field data ''type'' = JStr ''incoming-call''
          then p\<lparr>incomingCall := Some
                 \<lparr>cd_id = field data ''call_id'',
                  cd_room_id = field data ''room_id'',
                  cd_caller_username = field data ''caller_username'',
                  cd_receiver_username = JStr [],
                  cd_call_type = field data ''call_type'',
                  cd_status = JStr ''ringing''\<rparr>\<rparr>
          else if field data ''type'' = JStr ''call-cancelled'' then p\<lparr>incomingCall := None\<rparr>
          else if field data ''type'' = JStr ''call-ended'' then p\<lparr>incomingCall := None\<rparr>
          else p)"

text \<open>
  \<open>handleClose\<close> (lines 90 to 99) on socket \<open>w\<close>, which the browser has closed: the
  keep-alive interval is cleared, and with the flag set one reconnection is scheduled
  3000 ms ahead, its identifier stored in \<open>reconnectTimeoutRef\<close>.
\<close>

definition handleClose :: "nat \<Rightarrow> presence \<Rightarrow> presence" where
  "handleClose w p =
     (let p1 = p\<lparr>sockets := (sockets p)(w := (sockets p w)\<lparr>readyState := CLOSED\<rparr>)\<rparr>;
          p2 = (if truthy (pingInterval (sockets p w))
                then p1\<lparr>intervals := clearInterval (pingInterval (sockets p w)) (intervals p1)\<rparr>
                else p1)
      in if shouldReconnectRef p2
         then p2\<lparr>timeouts := timeouts p2 @ [(next_timer p2, 3000)],
                 reconnectTimeoutRef := Some (next_timer p2),
                 next_timer := Suc (next_timer p2)\<rparr>
         else p2)"

text \<open>The reconnection task \<open>t\<close> fires: it leaves the pending tasks and runs the setup.\<close>

definition timeoutFires :: "nat \<Rightarrow> string option \<Rightarrow> presence \<Rightarrow> presence" where
  "timeoutFires t tok p =
     setupPresenceWebSocket tok (p\<lparr>timeouts := filter (\<lambda>x. fst x \<noteq> t) (timeouts p)\<rparr>)"

text \<open>The body of the effect (lines 122 to 127).\<close>

definition mount :: "string option \<Rightarrow> presence \<Rightarrow> presence" where
  "mount tok p =
     (let p1 = setupPresenceWebSocket tok (p\<lparr>shouldReconnectRef := True\<rparr>)
      in p1\<lparr>intervals := next_timer p1 # intervals p1,
            refreshInterval := Some (next_timer p1),
            next_timer := Suc (next_timer p1)\<rparr>)"

text \<open>
  The cleanup of the effect (lines 129 to 148): the flag is cleared, the refresh
  interval and the timeout held in \<open>reconnectTimeoutRef\<close> are cleared, and the socket
  in \<open>wsRef\<close> is closed if it is open or connecting, and dropped from the ref.
\<close>

definition cleanup :: "presence \<Rightarrow> presence" where
  "cleanup p =
     (let p1 = p\<lparr>shouldReconnectRef := False,
                 intervals := clearInterval (refreshInterval p) (intervals p)\<rparr>;
          p2 = (if truthy (reconnectTimeoutRef p1)
                then p1\<lparr>timeouts := clearTimeout (reconnectTimeoutRef p1) (timeouts p1)\<rparr>
                else p1)
      in case wsRef p2 of
           None \<Rightarrow> p2
         | Some w \<Rightarrow>
             (if readyState (sockets p2 w) = OPEN \<or> readyState (sockets p2 w) = CONNECTING
              then p2\<lparr>sockets := (sockets p2)(w := (sockets p2 w)\<lparr>readyState := CLOSING\<rparr>)\<rparr>
              else p2)\<lparr>wsRef := None\<rparr>)"

text \<open>
  What can happen to the hook: React runs the effect or its cleanup, the browser
  opens a connecting socket, starts the closing handshake of an open one, closes
  one and dispatches \<open>close\<close>, delivers a message on an open socket, runs a
  keep-alive interval that is still active, or fires a pending timeout. An event
  that cannot happen in the current state changes nothing.
\<close>

datatype pevent =
  Mount "string option"
  | Cleanup
  | SockOpen nat
  | SockMessage nat "js option"
  | SockClosing nat
  | SockClose nat
  | TimerFires nat "string option"
  | PingTick nat

fun pstep :: "pevent \<Rightarrow> presence \<Rightarrow> presence" where
  "pstep (Mount tok) p = mount tok p"
| "pstep Cleanup p = cleanup p"
| "pstep (SockOpen w) p =
     (if w < n_sockets p \<and> readyState (sockets p w) = CONNECTING then handleOpen w p else p)"
| "pstep (SockMessage w m) p =
     (if w < n_sockets p \<and> readyState (sockets p w) = OPEN then handleMessage m p else p)"
| "pstep (SockClosing w) p =
     (if w < n_sockets p \<and> readyState (sockets p w) = OPEN
      then p\<lparr>sockets := (sockets p)(w := (sockets p w)\<lparr>readyState := CLOSING\<rparr>)\<rparr> else p)"
| "pstep (SockClose w) p =
     (if w < n_sockets p \<and> readyState (sockets p w) \<noteq> CLOSED then handleClose w p else p)"
| "pstep (TimerFires t tok) p =
     (if t \<in> fst ` set (timeouts p) then timeoutFires t tok p else p)"
| "pstep (PingTick w) p =
     (case pingInterval (sockets p w) of
        None \<Rightarrow> p
      | Some i \<Rightarrow> if w < n_sockets p \<and> i \<in> set (intervals p) then pingTick w p else p)"

fun prun :: "pevent list \<Rightarrow> presence \<Rightarrow> presence" where
  "prun [] p = p"
| "prun (e # es) p = prun es (pstep e p)"

fun is_mount :: "pevent \<Rightarrow> bool" where
  "is_mount (Mount tok) = True"
| "is_mount e = False"

fun is_effect :: "pevent \<Rightarrow> bool" where
  "is_effect (Mount tok) = True"
| "is_effect Cleanup = True"
| "is_effect e = False"

text \<open>
  What holds between one run of the effect and its cleanup: the flag is set, at most
  the socket in \<open>wsRef\<close> is not closed, every pending timeout is the one in
  \<open>reconnectTimeoutRef\<close>, and while a timeout is pending every socket is closed.
\<close>

definition mounted_ok :: "presence \<Rightarrow> bool" where
  "mounted_ok p =
     (shouldReconnectRef p \<and> 0 < next_timer p
      \<and> (\<forall>w < n_sockets p. readyState (sockets p w) \<noteq> CLOSED \<longrightarrow> wsRef p = Some w)
      \<and> (\<forall>x \<in> set (timeouts p). reconnectTimeoutRef p = Some (fst x) \<and> 0 < fst x)
      \<and> (timeouts p \<noteq> [] \<longrightarrow> (\<forall>w < n_sockets p. readyState (sockets p w) = CLOSED)))"

text \<open>
  A frame for which \<open>handleMessage\<close> has no case: it does not parse, it is \<open>null\<close>,
  or its \<open>type\<close> is none of the three.
\<close>

definition unhandled :: "js option \<Rightarrow> bool" where
  "unhandled frame =
     (case frame of
        None \<Rightarrow> True
      | Some data \<Rightarrow>
          data = JNull
          \<or> (field data ''type'' \<noteq> JStr ''incoming-call''
              \<and> field data ''type'' \<noteq> JStr ''call-cancelled''
              \<and> field data ''type'' \<noteq> JStr ''call-ended''))"

text \<open>
  Events that only keep the channel alive: a tick of the keep-alive interval, and a
  frame without a case.
\<close>

fun is_keepalive :: "pevent \<Rightarrow> bool" where
  "is_keepalive (PingTick w) = True"
| "is_keepalive (SockMessage w frame) = unhandled frame"
| "is_keepalive e = False"

text \<open>The frames of the presence channel, as the handler reads them.\<close>

definition incoming_call_msg :: "js \<Rightarrow> js \<Rightarrow> js \<Rightarrow> js \<Rightarrow> js" where
  "incoming_call_msg call_id room_id caller_username call_type =
     JObj [(''type'', JStr ''incoming-call''), (''call_id'', call_id), (''room_id'', room_id),
           (''caller_username'', caller_username), (''call_type'', call_type)]"

definition call_cancelled_msg :: "js \<Rightarrow> js" where
  "call_cancelled_msg call_id = JObj [(''type'', JStr ''call-cancelled''), (''call_id'', call_id)]"

definition call_ended_msg :: "js \<Rightarrow> js" where
  "call_ended_msg call_id = JObj [(''type'', JStr ''call-ended''), (''call_id'', call_id)]"

text \<open>
  Modelled from the spec: the server's end of a presence channel (Notification
  Channel Manager, section 4.3); the backend's consumer is missing from the sources.
  The channel knows its user and for how many seconds it has been idle. On an inbound
  keep-alive message it resets the idle timer and does nothing else: \<open>on_keepalive\<close>
  returns the channel and the frames sent back to the client, none.
\<close>

record notif_channel =
  ch_user :: uid
  idle_seconds :: nat

definition on_keepalive :: "notif_channel \<Rightarrow> notif_channel \<times> js list" where
  "on_keepalive ch = (ch\<lparr>idle_seconds := 0\<rparr>, [])"

text \<open>
  One round of the keep-alive on socket \<open>w\<close>: the interval's callback runs (lines 52
  to 56); if the socket is open the \<open>ping\<close> frame it sends is inbound at the server,
  and the client handles whatever the server sends back.
\<close>

definition keepalive_round :: "nat \<Rightarrow> notif_channel \<Rightarrow> presence \<Rightarrow> notif_channel \<times> presence" where
  "keepalive_round w ch p =
     (if readyState (sockets p w) = OPEN
      then (fst (on_keepalive ch),
            fold (\<lambda>frame. handleMessage (Some frame)) (snd (on_keepalive ch)) (pingTick w p))
      else (ch, pingTick w p))"

text \<open>The hook after its effect has run with a token and the socket has opened.\<close>

definition online_presence :: presence where
  "online_presence = prun [Mount (Some ''jwt''), SockOpen 0] presence0"

subsection \<open>The call session hook (useWebRTC, src/unnamed/part_000 from line 536)\<close>

type_synonym sdp = string
type_synonym cand = string

text \<open>A \<open>MediaStreamTrack\<close>: its kind, its \<open>enabled\<close> flag, and whether \<open>stop()\<close> has been called.\<close>

record track =
  track_kind :: call_kind
  track_enabled :: bool
  track_stopped :: bool

text \<open>
  An \<open>RTCPeerConnection\<close>, as far as the hook drives it: the two descriptions, the
  candidates handed to \<open>addIceCandidate\<close> in the order of the calls, and whether
  \<open>close()\<close> has been called.
\<close>

record peer =
  remoteDescription :: "sdp option"
  localDescription :: "sdp option"
  added :: "cand list"
  pc_closed :: bool

text \<open>What the hook writes to the room socket.\<close>

datatype out_msg =
  OutCallOffer sdp string
  | OutCallAnswer sdp
  | OutIceCandidate cand
  | OutCallEnd

text \<open>
  What the two \<open>ws.onmessage\<close> handlers read of a parsed room message:
  \<open>data.type\<close> and \<open>data.offer\<close>, \<open>data.answer\<close> or \<open>data.candidate\<close>.
\<close>

datatype room_msg =
  InUserJoined
  | InCallOffer sdp
  | InCallAnswer sdp
  | InIceCandidate cand
  | InCallEnd
  | InOther string

record wsock =
  ws_ready :: ready_state
  ws_sent :: "out_msg list"

text \<open>
  The state of the hook: the seven pieces of React state, the refs
  \<open>peerConnectionRef\<close>, \<open>wsRef\<close> (here \<open>rtc_wsRef\<close>) and \<open>pendingIceCandidates\<close>,
  the \<open>srcObject\<close> of the two video elements (\<open>None\<close> while the element is not
  mounted), and the browser objects the refs and closures point to: media streams,
  peer connections and sockets, each a store from addresses to objects.
\<close>

record session =
  localStream :: "nat option"
  remoteStream :: "nat option"
  callStatus :: string
  isCallActive :: bool
  currentCall :: "call_data option"
  audioEnabled :: bool
  videoEnabled :: bool
  peerConnectionRef :: "nat option"
  rtc_wsRef :: "nat option"
  pendingIceCandidates :: "cand list"
  localVideoSrc :: "nat option option"
  remoteVideoSrc :: "nat option option"
  streams :: "nat \<Rightarrow> track list"
  peers :: "nat \<Rightarrow> peer"
  socks :: "nat \<Rightarrow> wsock"

text \<open>
  The browser decides whether a description or a candidate is accepted and what
  answer \<open>createAnswer\<close> produces; these are parameters of the model.
\<close>

record browser =
  sdp_ok :: "sdp \<Rightarrow> bool"
  cand_ok :: "cand \<Rightarrow> bool"
  make_answer :: "sdp \<Rightarrow> sdp"


definition addIceCandidate :: "browser \<Rightarrow> cand \<Rightarrow> peer \<Rightarrow> peer option" where
  "addIceCandidate br c pc =
     (if pc_closed pc \<or> remoteDescription pc = None \<or> \<not> cand_ok br c then None
      else Some (pc\<lparr>added := added pc @ [c]\<rparr>))"

text \<open>\<open>ws.send\<close> inside a message handler: the frame goes out on an open socket only.\<close>

definition ws_send :: "nat \<Rightarrow> out_msg \<Rightarrow> session \<Rightarrow> session" where
  "ws_send w m s =
     (if ws_ready (socks s w) = OPEN
      then s\<lparr>socks := (socks s)(w := (socks s w)\<lparr>ws_sent := ws_sent (socks s w) @ [m]\<rparr>)\<rparr>
      else s)"

text \<open>
  \<open>endCall\<close> (lines 888 to 919). The callback is memoised on \<open>[localStream]\<close> and
  reads \<open>localStream\<close> from the render it was created in: that value is the first
  argument. \<open>wsRef\<close> is left pointing at the socket.
\<close>

definition endCall :: "nat option \<Rightarrow> session \<Rightarrow> session" where
  "endCall captured s =
     (let s1 = (case rtc_wsRef s of
                  None \<Rightarrow> s
                | Some w \<Rightarrow>
                    if ws_ready (socks s w) = OPEN
                    then s\<lparr>socks := (socks s)(w :=
                             \<lparr>ws_ready = CLOSING, ws_sent = ws_sent (socks s w) @ [OutCallEnd]\<rparr>)\<rparr>
                    else s);
          s2 = (case peerConnectionRef s1 of
                  None \<Rightarrow> s1
                | Some p \<Rightarrow>
                    s1\<lparr>peers := (peers s1)(p := (peers s1 p)\<lparr>pc_closed := True\<rparr>),
                       peerConnectionRef := None\<rparr>);
          s3 = (case captured of
                  None \<Rightarrow> s2
                | Some m \<Rightarrow>
                    s2\<lparr>streams := (streams s2)(m :=
                          map (\<lambda>t. t\<lparr>track_stopped := True\<rparr>) (streams s2 m))\<rparr>)
      in s3\<lparr>localVideoSrc := map_option (\<lambda>x. None) (localVideoSrc s3),
            remoteVideoSrc := map_option (\<lambda>x. None) (remoteVideoSrc s3),
            localStream := None, remoteStream := None, isCallActive := False,
            currentCall := None, callStatus := [], audioEnabled := True,
            videoEnabled := True, pendingIceCandidates := []\<rparr>)"

text \<open>
  The \<open>endCall\<close> that \<open>startCall\<close>, \<open>acceptCall\<close>, \<open>setupPeerConnection\<close> and the
  unmount effect call. Their dependency lists never change (\<open>getLocalStream\<close> and
  \<open>setupPeerConnection\<close> are memoised on \<open>[]\<close>), so the callbacks of the first
  render are kept, and the \<open>endCall\<close> they close over is the one of the first render,
  in which \<open>localStream\<close> is the initial \<open>null\<close>.
\<close>

definition endCall_first_render :: "session \<Rightarrow> session" where
  "endCall_first_render s = endCall None s"

text \<open>
  The \<open>endCall\<close> that the hook returns to the page in the current render: it was
  created with the current \<open>localStream\<close>.
\<close>

definition endCall_current :: "session \<Rightarrow> session" where
  "endCall_current s = endCall (localStream s) s"

text \<open>
  The two \<open>ws.onmessage\<close> handlers are \<open>async\<close>: at an \<open>await\<close> the handler is
  suspended until the promise settles, and the messages that arrive meanwhile are
  handled first. A suspended handler is a task, named by what it awaits:

  \<^item> \<open>SettingRemote d\<close>: \<open>await pc.setRemoteDescription(d)\<close> (lines 750 and 820);
    the loop over the queue follows.
  \<^item> \<open>Draining cs\<close>: \<open>await pc.addIceCandidate(c)\<close> inside the loop (lines 753 to
    755 and 823 to 825); \<open>cs\<close> are the candidates of the queue that the loop has
    still to visit.
  \<^item> \<open>CreatingAnswer\<close>: \<open>await pc.createAnswer(answerOptions)\<close> (line 833).
  \<^item> \<open>SettingLocal a\<close>: \<open>await pc.setLocalDescription(answer)\<close> (line 834); the send
    of the answer follows.

  The case \<open>ice-candidate\<close> awaits \<open>pc.addIceCandidate\<close> as its last statement: nothing
  is left to do when that promise settles, and no task is kept for it.
\<close>

datatype task = SettingRemote sdp | Draining "cand list" | CreatingAnswer | SettingLocal sdp

text \<open>
  The handler that is installed on the room socket, with the variables of its
  closure other than the socket and the peer connection: \<open>startCall\<close>'s holds the
  offer and the call type.
\<close>

datatype handler = StartCall sdp string | AcceptCall

text \<open>The case \<open>ice-candidate\<close> of both handlers (lines 759 to 765 and 844 to 850).\<close>

definition on_ice_candidate :: "browser \<Rightarrow> nat \<Rightarrow> cand \<Rightarrow> session \<Rightarrow> session" where
  "on_ice_candidate br p c s =
     (if remoteDescription (peers s p) \<noteq> None
      then (case addIceCandidate br c (peers s p) of
              None \<Rightarrow> s
            | Some pc' \<Rightarrow> s\<lparr>peers := (peers s)(p := pc')\<rparr>)
      else s\<lparr>pendingIceCandidates := pendingIceCandidates s @ [c]\<rparr>)"

text \<open>
  \<open>ws.onmessage\<close> of \<open>startCall\<close> (lines 734 to 771) up to its first \<open>await\<close> or
  to its end, with the variables of its closure: the socket \<open>w\<close>, the peer connection
  \<open>p\<close>, the offer and the call type. In the case \<open>call-answer\<close> the handler has called
  \<open>pc.setRemoteDescription\<close> and waits; nothing has changed yet.
\<close>

fun startCall_onmessage ::
  "browser \<Rightarrow> nat \<Rightarrow> nat \<Rightarrow> sdp \<Rightarrow> string \<Rightarrow> room_msg \<Rightarrow> session \<Rightarrow> session" where
  "startCall_onmessage br w p offer callType InUserJoined s =
     ws_send w (OutCallOffer offer callType) s"
| "startCall_onmessage br w p offer callType (InCallAnswer a) s = s"
| "startCall_onmessage br w p offer callType (InIceCandidate c) s = on_ice_candidate br p c s"
| "startCall_onmessage br w p offer callType InCallEnd s = endCall_first_render s"
| "startCall_onmessage br w p offer callType m s = s"

text \<open>
  \<open>ws.onmessage\<close> of \<open>acceptCall\<close> (lines 813 to 856) up to its first \<open>await\<close> or
  to its end, with the socket \<open>w\<close> and the peer connection \<open>p\<close> of its closure. In
  the case \<open>call-offer\<close> the handler has called \<open>pc.setRemoteDescription\<close> and waits.
\<close>

fun acceptCall_onmessage :: "browser \<Rightarrow> nat \<Rightarrow> nat \<Rightarrow> room_msg \<Rightarrow> session \<Rightarrow> session" where
  "acceptCall_onmessage br w p (InCallOffer d) s = s"
| "acceptCall_onmessage br w p (InIceCandidate c) s = on_ice_candidate br p c s"
| "acceptCall_onmessage br w p InCallEnd s = endCall_first_render s"
| "acceptCall_onmessage br w p m s = s"



text \<open>
  The loop \<open>for (const candidate of pendingIceCandidates.current) await
  pc.addIceCandidate(...)\<close> and the statement behind it, from the point where the
  loop has \<open>cs\<close> still to visit. With a candidate left, \<open>pc.addIceCandidate\<close> is
  called on it and the handler waits; a rejected promise throws in the handler, which
  has no \<open>catch\<close> and ends there, the queue as it is. With none left the queue is
  emptied (lines 756 and 826), and \<open>acceptCall\<close>'s handler goes on to create the
  answer. The loop visits the array that was in \<open>pendingIceCandidates.current\<close> when
  it began; a candidate is pushed only while the connection has no remote description,
  which is never the case once a loop has begun, so that array is the list \<open>cs\<close>
  throughout.
\<close>

fun after_loop :: "handler \<Rightarrow> task list" where
  "after_loop (StartCall offer callType) = []"
| "after_loop AcceptCall = [CreatingAnswer]"

fun ice_loop :: "browser \<Rightarrow> handler \<Rightarrow> nat \<Rightarrow> cand list \<Rightarrow> session \<Rightarrow> session \<times> task list" where
  "ice_loop br h p [] s = (s\<lparr>pendingIceCandidates := []\<rparr>, after_loop h)"
| "ice_loop br h p (c # cs) s =
     (case addIceCandidate br c (peers s p) of
        None \<Rightarrow> (s, [])
      | Some pc' \<Rightarrow> (s\<lparr>peers := (peers s)(p := pc')\<rparr>, [Draining cs]))"









text \<open>A handler that is setting a remote description or is in the loop behind it.\<close>

fun negotiating :: "task \<Rightarrow> bool" where
  "negotiating (SettingRemote d) = True"
| "negotiating (Draining cs) = True"
| "negotiating t = False"













datatype negotiation = Offer sdp | Answer sdp | IceCandidate cand



text \<open>The hook before any call, and a browser that accepts everything.\<close>

definition session0 :: session where
  "session0 =
     \<lparr>localStream = None, remoteStream = None, callStatus = [], isCallActive = False,
      currentCall = None, audioEnabled = True, videoEnabled = True,
      peerConnectionRef = None, rtc_wsRef = None, pendingIceCandidates = [],
      localVideoSrc = Some None, remoteVideoSrc = Some None,
      streams = (\<lambda>m. []),
      peers = (\<lambda>p. \<lparr>remoteDescription = None, localDescription = None, added = [],
                     pc_closed = True\<rparr>),
      socks = (\<lambda>w. \<lparr>ws_ready = CLOSED, ws_sent = []\<rparr>)\<rparr>"

definition any_browser :: browser where
  "any_browser = \<lparr>sdp_ok = (\<lambda>d. True), cand_ok = (\<lambda>c. True), make_answer = (\<lambda>d. ''answer'')\<rparr>"

text \<open>
  The caller's hook in a video call: \<open>startCall\<close> has obtained stream 0 with a live
  audio and a live video track, built peer connection 0 with the offer as local
  description, and its room socket 0 is open.
\<close>

definition calling_session :: session where
  "calling_session =
     session0
       \<lparr>localStream := Some 0, callStatus := ''Waiting for answer...'', isCallActive := True,
        currentCall := Some \<lparr>cd_id = JNum 7, cd_room_id = JStr ''room-7'',
                              cd_caller_username = JStr ''alice'',
                              cd_receiver_username = JStr ''bob'',
                              cd_call_type = JStr ''video'', cd_status = JStr ''initiated''\<rparr>,
        peerConnectionRef := Some 0, rtc_wsRef := Some 0,
        localVideoSrc := Some (Some 0),
        streams := (\<lambda>m. [])(0 :=
          [\<lparr>track_kind = Audio, track_enabled = True, track_stopped = False\<rparr>,
           \<lparr>track_kind = Video, track_enabled = True, track_stopped = False\<rparr>]),
        peers := (peers session0)(0 :=
          \<lparr>remoteDescription = None, localDescription = Some ''offer'', added = [],
           pc_closed = False\<rparr>),
        socks := (socks session0)(0 := \<lparr>ws_ready = OPEN, ws_sent = []\<rparr>)\<rparr>"




section \<open>Properties of the call record store\<close>

lemma cid_apply_event: "cid (apply_event e now r) = cid r"
  by (cases e) simp_all

lemma room_apply_event: "room (apply_event e now r) = room r"
  by (cases e) simp_all

lemma edge_apply_event: "legal_from e (status r) \<Longrightarrow> edge (status r) (status (apply_event e now r))"
  by (cases e) auto

lemma find_cid: "find (\<lambda>r. cid r = c) rs = Some r \<Longrightarrow> cid r = c"
  by (induction rs) (auto split: if_splits)

lemma find_put_same:
  "find (\<lambda>r. cid r = c) rs = Some r \<Longrightarrow> cid r' = c \<Longrightarrow> find (\<lambda>r. cid r = c) (put r' rs) = Some r'"
  by (induction rs) (auto simp: put_def split: if_splits)

lemma find_put_other:
  "cid r' \<noteq> c \<Longrightarrow> find (\<lambda>r. cid r = c) (put r' rs) = find (\<lambda>r. cid r = c) rs"
  by (induction rs) (auto simp: put_def)

lemma get_cid: "get st c = Some r \<Longrightarrow> cid r = c"
  unfolding get_def by (rule find_cid)

lemma transition_cases:
  assumes "get st c = Some r"
  shows "transition st c e a now =
    (if \<not> participant a r then (Inl Forbidden, st)
     else if \<not> legal_from e (status r) \<or> \<not> named_actor e a r
       then (Inl InvalidTransition, st)
     else (Inr (apply_event e now r), st\<lparr>calls := put (apply_event e now r) (calls st)\<rparr>))"
  using assms by (simp add: transition_def Let_def)

lemma get_after_put:
  assumes "get st c = Some r"
  shows "get (st\<lparr>calls := put (apply_event e now r) (calls st)\<rparr>) c' =
         (if c' = c then Some (apply_event e now r) else get st c')"
proof -
  have c: "cid (apply_event e now r) = c"
    using get_cid [OF assms] by (simp add: cid_apply_event)
  show ?thesis
  proof (cases "c' = c")
    case True
    with assms c show ?thesis by (simp add: get_def find_put_same)
  next
    case False
    with c show ?thesis by (simp add: get_def find_put_other)
  qed
qed

lemma transition_success:
  assumes "get st c = Some r" and "transition st c e a now = (Inr r', st')"
  shows "participant a r \<and> named_actor e a r \<and> legal_from e (status r)
         \<and> r' = apply_event e now r
         \<and> st' = st\<lparr>calls := put (apply_event e now r) (calls st)\<rparr>"
proof (cases "participant a r \<and> named_actor e a r \<and> legal_from e (status r)")
  case True
  then have "transition st c e a now =
      (Inr (apply_event e now r), st\<lparr>calls := put (apply_event e now r) (calls st)\<rparr>)"
    by (simp add: transition_cases [OF assms(1)])
  with assms(2) have "(Inr r', st') =
      (Inr (apply_event e now r) :: error + call_record,
       st\<lparr>calls := put (apply_event e now r) (calls st)\<rparr>)"
    by (rule subst)
  then have "r' = apply_event e now r \<and> st' = st\<lparr>calls := put (apply_event e now r) (calls st)\<rparr>"
    by (simp only: prod.inject sum.inject)
  with True show ?thesis by (intro conjI) (elim conjE, assumption)+
next
  case False
  then have "transition st c e a now = (Inl Forbidden, st)
      \<or> transition st c e a now = (Inl InvalidTransition, st)"
    by (auto simp: transition_cases [OF assms(1)])
  with assms(2) show ?thesis by (elim disjE) simp_all
qed

lemma transition_get:
  assumes "get st c' = Some r"
  shows "\<exists>r'. get (snd (transition st c e a now)) c' = Some r'
      \<and> (r' = r \<or> (c' = c \<and> named_actor e a r \<and> legal_from e (status r)
                     \<and> r' = apply_event e now r))"
proof (cases "get st c")
  case None
  with assms show ?thesis by (simp add: transition_def)
next
  case (Some q)
  show ?thesis
  proof (cases "participant a q \<and> named_actor e a q \<and> legal_from e (status q)")
    case False
    then have "snd (transition st c e a now) = st"
      by (auto simp: transition_cases [OF Some])
    with assms show ?thesis by simp
  next
    case True
    then have s: "snd (transition st c e a now) = st\<lparr>calls := put (apply_event e now q) (calls st)\<rparr>"
      by (simp add: transition_cases [OF Some])
    show ?thesis
    proof (cases "c' = c")
      case False
      with assms show ?thesis by (simp add: s get_after_put [OF Some])
    next
      case eq: True
      with assms Some have qr: "q = r" by simp
      have g: "get (snd (transition st c e a now)) c' = Some (apply_event e now r)"
        unfolding s get_after_put [OF Some] using eq qr by simp
      show ?thesis using eq g True qr by simp
    qed
  qed
qed

lemma create_cases:
  "create is_user st a b k now = (Inl InvalidReceiver, st) \<or>
   (\<exists>r. create is_user st a b k now = (Inr r, st\<lparr>calls := calls st @ [r], next_id := Suc (next_id st)\<rparr>)
        \<and> cid r = next_id st \<and> room r = next_id st \<and> status r = Initiated
        \<and> caller r = a \<and> receiver r = b \<and> kind r = k)"
  by (simp add: create_def Let_def)

lemma find_app: "find P xs = Some x \<Longrightarrow> find P (xs @ ys) = Some x"
  by (induction xs) (auto split: if_splits)

lemma get_append:
  "get st c = Some r \<Longrightarrow> get (st\<lparr>calls := calls st @ rs, next_id := n\<rparr>) c = Some r"
  by (simp add: get_def find_app)

lemma create_get:
  assumes "get st c = Some r"
  shows "get (snd (create is_user st a b k now)) c = Some r"
  using create_cases [of is_user st a b k now] assms
  by (auto simp: get_append)

lemma exec_get:
  assumes "get st c = Some r"
  shows "\<exists>r'. get (exec is_user x st) c = Some r' \<and> room r' = room r
           \<and> (status r' = status r \<or> edge (status r) (status r'))"
proof (cases x)
  case (Create a b k now)
  with assms show ?thesis by (simp add: create_get)
next
  case (Transition c0 e a now)
  obtain r' where g: "get (snd (transition st c0 e a now)) c = Some r'"
    and d: "r' = r \<or> (c = c0 \<and> named_actor e a r \<and> legal_from e (status r) \<and> r' = apply_event e now r)"
    using transition_get [OF assms, of c0 e a now] by blast
  from d have "room r' = room r \<and> (status r' = status r \<or> edge (status r) (status r'))"
    by (auto simp: room_apply_event edge_apply_event)
  with g Transition show ?thesis by simp
qed

lemma edge_settled: "settled s \<Longrightarrow> edge s t \<Longrightarrow> settled t"
  by (cases s) (auto simp: settled_def)

lemma run_get:
  "get st c = Some r \<Longrightarrow>
   \<exists>r'. get (run is_user xs st) c = Some r' \<and> room r' = room r
        \<and> (settled (status r) \<longrightarrow> settled (status r'))"
proof (induction xs arbitrary: st r)
  case Nil
  then show ?case by simp
next
  case (Cons x xs)
  obtain r1 where g1: "get (exec is_user x st) c = Some r1" and r1: "room r1 = room r"
    and e1: "status r1 = status r \<or> edge (status r) (status r1)"
    using exec_get [OF Cons.prems, of is_user x] by blast
  obtain r' where g: "get (run is_user xs (exec is_user x st)) c = Some r'"
    and r': "room r' = room r1" and s': "settled (status r1) \<longrightarrow> settled (status r')"
    using Cons.IH [OF g1] by blast
  have "settled (status r) \<longrightarrow> settled (status r1)"
    using e1 edge_settled by auto
  with g r' r1 s' show ?case by simp
qed

lemma demo_store_eq: "demo_store = \<lparr>calls = [demo_call], next_id = 1\<rparr>"
  by (simp add: demo_store_def demo_call_def create_def demo_users_def empty_store_def Let_def)

lemma get_demo: "get demo_store 0 = Some demo_call"
  by (simp add: demo_store_eq get_def demo_call_def)

lemma accepted_store_eq:
  "accepted_store = \<lparr>calls = [demo_call\<lparr>status := Accepted, accepted_at := Some 5\<rparr>], next_id = 1\<rparr>"
  by (simp add: accepted_store_def transition_cases [OF get_demo])
     (simp add: demo_call_def demo_store_eq put_def)

lemma get_accepted:
  "get accepted_store 0 = Some (demo_call\<lparr>status := Accepted, accepted_at := Some 5\<rparr>)"
  by (simp add: accepted_store_eq get_def demo_call_def)

text \<open>
  Claim C3. The timeout marks a call \<open>missed\<close> exactly when the call is still
  \<open>initiated\<close> or \<open>ringing\<close>; on any other status it fails with InvalidTransition
  and the store is left as it was. In particular, once the receiver's accept has
  landed the timeout is a no-op, and no later history of operations makes an answered
  or otherwise settled call \<open>missed\<close>.
\<close>

theorem timeout_only_if_unanswered:
  assumes "get st c = Some r"
  shows "(status r = Initiated \<or> status r = Ringing
            \<longrightarrow> get (snd (transition st c EvTimeout System now)) c = Some (r\<lparr>status := Missed\<rparr>))
       \<and> (status r \<noteq> Initiated \<and> status r \<noteq> Ringing
            \<longrightarrow> transition st c EvTimeout System now = (Inl InvalidTransition, st))
       \<and> (\<forall>r1 st1. transition st c EvAccept (User (receiver r)) t0 = (Inr r1, st1)
            \<longrightarrow> status r1 = Accepted
              \<and> transition st1 c EvTimeout System now = (Inl InvalidTransition, st1))
       \<and> (settled (status r)
            \<longrightarrow> (\<exists>r'. get (run is_user xs st) c = Some r' \<and> status r' \<noteq> Missed))"
proof (intro conjI impI allI)
  assume "status r = Initiated \<or> status r = Ringing"
  then have "transition st c EvTimeout System now =
      (Inr (apply_event EvTimeout now r), st\<lparr>calls := put (apply_event EvTimeout now r) (calls st)\<rparr>)"
    by (auto simp: transition_cases [OF assms])
  then have "get (snd (transition st c EvTimeout System now)) c = Some (apply_event EvTimeout now r)"
    by (simp add: get_after_put [OF assms] del: apply_event.simps)
  then show "get (snd (transition st c EvTimeout System now)) c = Some (r\<lparr>status := Missed\<rparr>)"
    by simp
next
  assume "status r \<noteq> Initiated \<and> status r \<noteq> Ringing"
  then show "transition st c EvTimeout System now = (Inl InvalidTransition, st)"
    by (simp add: transition_cases [OF assms])
next
  fix r1 st1
  assume t: "transition st c EvAccept (User (receiver r)) t0 = (Inr r1, st1)"
  from transition_success [OF assms t]
  have r1: "r1 = apply_event EvAccept t0 r"
    and st1: "st1 = st\<lparr>calls := put (apply_event EvAccept t0 r) (calls st)\<rparr>" by simp_all
  have g: "get st1 c = Some r1"
    unfolding st1 r1 by (simp add: get_after_put [OF assms] del: apply_event.simps)
  show s: "status r1 = Accepted" by (simp add: r1)
  then show "transition st1 c EvTimeout System now = (Inl InvalidTransition, st1)"
    by (simp add: transition_cases [OF g])
next
  assume s: "settled (status r)"
  obtain r' where g: "get (run is_user xs st) c = Some r'"
    and s': "settled (status r) \<longrightarrow> settled (status r')"
    using run_get [OF assms, of is_user xs] by blast
  from s s' have "status r' \<noteq> Missed" by (auto simp: settled_def)
  with g show "\<exists>r'. get (run is_user xs st) c = Some r' \<and> status r' \<noteq> Missed" by blast
qed

theorem timeout_only_if_unanswered_witness:
  "get demo_store 0 = Some demo_call
   \<and> get (snd (transition demo_store 0 EvTimeout System 45)) 0 = Some (demo_call\<lparr>status := Missed\<rparr>)
   \<and> transition demo_store 0 EvAccept (User 2) 5
       = (Inr (demo_call\<lparr>status := Accepted, accepted_at := Some 5\<rparr>), accepted_store)
   \<and> transition accepted_store 0 EvTimeout System 45 = (Inl InvalidTransition, accepted_store)
   \<and> (\<exists>r'. get (run demo_users [Transition 0 EvTimeout System 45, Transition 0 EvEnd (User 1) 60]
                   accepted_store) 0 = Some r' \<and> status r' \<noteq> Missed)"
proof -
  have i: "status demo_call = Initiated \<or> status demo_call = Ringing"
    by (simp add: demo_call_def)
  have rc: "receiver demo_call = 2" by (simp add: demo_call_def)
  have acc: "transition demo_store 0 EvAccept (User 2) 5
       = (Inr (demo_call\<lparr>status := Accepted, accepted_at := Some 5\<rparr>), accepted_store)"
    unfolding accepted_store_def
    by (simp add: transition_cases [OF get_demo]) (simp add: demo_call_def)
  have s: "settled (status (demo_call\<lparr>status := Accepted, accepted_at := Some 5\<rparr>))"
    by (simp add: settled_def)
  note w1 = timeout_only_if_unanswered [OF get_demo, of 45 5 demo_users "[]"]
  note w2 = timeout_only_if_unanswered [OF get_accepted, of 45 5 demo_users
      "[Transition 0 EvTimeout System 45, Transition 0 EvEnd (User 1) 60]"]
  from w1 i have 1: "get (snd (transition demo_store 0 EvTimeout System 45)) 0
      = Some (demo_call\<lparr>status := Missed\<rparr>)" by blast
  from w1 acc rc have 2: "transition accepted_store 0 EvTimeout System 45
      = (Inl InvalidTransition, accepted_store)" by simp
  from w2 s have 3: "\<exists>r'. get (run demo_users [Transition 0 EvTimeout System 45,
      Transition 0 EvEnd (User 1) 60] accepted_store) 0 = Some r' \<and> status r' \<noteq> Missed"
    by blast
  from get_demo 1 acc 2 3 show ?thesis by blast
qed

section \<open>Properties of the presence hook\<close>

subsection \<open>Frames on the presence channel\<close>

lemma handleMessage_frame:
  "shouldReconnectRef (handleMessage m p) = shouldReconnectRef p
   \<and> n_sockets (handleMessage m p) = n_sockets p
   \<and> sockets (handleMessage m p) = sockets p
   \<and> wsRef (handleMessage m p) = wsRef p
   \<and> timeouts (handleMessage m p) = timeouts p
   \<and> reconnectTimeoutRef (handleMessage m p) = reconnectTimeoutRef p
   \<and> next_timer (handleMessage m p) = next_timer p"
  by (simp add: handleMessage_def split: option.splits)

lemma handleMessage_unhandled: "unhandled m \<Longrightarrow> handleMessage m p = p"
  by (auto simp: handleMessage_def unhandled_def split: option.splits)

lemma keepalive_step:
  assumes "is_keepalive e"
  shows "incomingCall (pstep e p) = incomingCall p \<and> n_sockets (pstep e p) = n_sockets p
       \<and> (\<forall>w. readyState (sockets (pstep e p) w) = readyState (sockets p w))"
proof (cases e)
  case (SockMessage w m)
  with assms show ?thesis by (simp add: handleMessage_unhandled)
next
  case (PingTick w)
  then show ?thesis by (simp add: pingTick_def split: option.splits)
qed (use assms in simp_all)

lemma keepalive_run:
  "list_all is_keepalive es \<Longrightarrow>
     incomingCall (prun es p) = incomingCall p \<and> n_sockets (prun es p) = n_sockets p
     \<and> (\<forall>w. readyState (sockets (prun es p) w) = readyState (sockets p w))"
proof (induction es arbitrary: p)
  case Nil
  then show ?case by simp
next
  case (Cons e es)
  from Cons.prems have e: "is_keepalive e" and es: "list_all is_keepalive es" by simp_all
  show ?case using Cons.IH [OF es, of "pstep e p"] keepalive_step [OF e, of p] by simp
qed

lemma prun_append: "prun (xs @ ys) p = prun ys (prun xs p)"
  by (induction xs arbitrary: p) simp_all

lemma handle_incoming_call:
  "handleMessage (Some (incoming_call_msg i r c t)) p =
     p\<lparr>incomingCall := Some
         \<lparr>cd_id = i, cd_room_id = r, cd_caller_username = c,
          cd_receiver_username = JStr [], cd_call_type = t, cd_status = JStr ''ringing''\<rparr>\<rparr>"
  by (simp add: handleMessage_def incoming_call_msg_def)

lemma handle_call_over:
  "handleMessage (Some (call_cancelled_msg j)) p = p\<lparr>incomingCall := None\<rparr>"
  "handleMessage (Some (call_ended_msg j)) p = p\<lparr>incomingCall := None\<rparr>"
  by (simp_all add: handleMessage_def call_cancelled_msg_def call_ended_msg_def)

text \<open>
  Claim C7. On an open presence socket, an \<open>incoming-call\<close> frame carrying the
  call's \<open>call_id\<close>, \<open>room_id\<close>, caller (the wire key is \<open>caller_username\<close>) and
  \<open>call_type\<close> makes that call the pending incoming call, with exactly those four
  values and the status \<open>ringing\<close>, whatever was pending before. The call stays
  pending while only keep-alive traffic follows, and a subsequent \<open>call-cancelled\<close> or
  \<open>call-ended\<close> frame for that call clears the pending incoming call. A \<open>ping\<close>,
  which the client's keep-alive interval sends and the server receives, resets the idle
  timer of the server's channel and has no other effect: at the server nothing else
  changes and nothing is sent back, and at the client nothing changes but the count
  of frames sent, so the pending incoming call is as it was.
\<close>

theorem incoming_call_tracking:
  assumes "w < n_sockets p" and "readyState (sockets p w) = OPEN"
    and "list_all is_keepalive es"
  shows "pstep (SockMessage w (Some (incoming_call_msg i r c t))) p =
           p\<lparr>incomingCall := Some
               \<lparr>cd_id = i, cd_room_id = r, cd_caller_username = c,
                cd_receiver_username = JStr [], cd_call_type = t,
                cd_status = JStr ''ringing''\<rparr>\<rparr>
       \<and> incomingCall (prun (SockMessage w (Some (incoming_call_msg i r c t)) # es) p) =
           Some \<lparr>cd_id = i, cd_room_id = r, cd_caller_username = c,
                 cd_receiver_username = JStr [], cd_call_type = t,
                 cd_status = JStr ''ringing''\<rparr>
       \<and> incomingCall (prun (SockMessage w (Some (incoming_call_msg i r c t)) # es
                               @ [SockMessage w (Some (call_cancelled_msg i))]) p) = None
       \<and> incomingCall (prun (SockMessage w (Some (incoming_call_msg i r c t)) # es
                               @ [SockMessage w (Some (call_ended_msg i))]) p) = None
       \<and> keepalive_round w ch p =
           (ch\<lparr>idle_seconds := 0\<rparr>,
            p\<lparr>sockets := (sockets p)(w := (sockets p w)
                  \<lparr>pings_sent := Suc (pings_sent (sockets p w))\<rparr>)\<rparr>)
       \<and> incomingCall (snd (keepalive_round w ch p)) = incomingCall p"
proof -
  define q where "q = pstep (SockMessage w (Some (incoming_call_msg i r c t))) p"
  have q: "q = p\<lparr>incomingCall := Some
               \<lparr>cd_id = i, cd_room_id = r, cd_caller_username = c,
                cd_receiver_username = JStr [], cd_call_type = t,
                cd_status = JStr ''ringing''\<rparr>\<rparr>"
    using assms(1,2) by (simp add: q_def handle_incoming_call)
  note k = keepalive_run [OF assms(3), of q]
  have inc: "incomingCall (prun es q) = Some
               \<lparr>cd_id = i, cd_room_id = r, cd_caller_username = c,
                cd_receiver_username = JStr [], cd_call_type = t,
                cd_status = JStr ''ringing''\<rparr>"
    using k by (simp add: q)
  have op: "w < n_sockets (prun es q) \<and> readyState (sockets (prun es q) w) = OPEN"
    using k assms(1,2) by (simp add: q)
  have c1: "incomingCall (prun (es @ [SockMessage w (Some (call_cancelled_msg i))]) q) = None"
    using op by (simp add: prun_append handle_call_over)
  have c2: "incomingCall (prun (es @ [SockMessage w (Some (call_ended_msg i))]) q) = None"
    using op by (simp add: prun_append handle_call_over)
  have u: "\<And>xs. prun (SockMessage w (Some (incoming_call_msg i r c t)) # xs) p = prun xs q"
    by (simp only: prun.simps q_def)
  have f1: "pstep (SockMessage w (Some (incoming_call_msg i r c t))) p =
           p\<lparr>incomingCall := Some
               \<lparr>cd_id = i, cd_room_id = r, cd_caller_username = c,
                cd_receiver_username = JStr [], cd_call_type = t,
                cd_status = JStr ''ringing''\<rparr>\<rparr>"
    using q by (simp only: q_def)
  have f2: "incomingCall (prun (SockMessage w (Some (incoming_call_msg i r c t)) # es) p) =
           Some \<lparr>cd_id = i, cd_room_id = r, cd_caller_username = c,
                 cd_receiver_username = JStr [], cd_call_type = t,
                 cd_status = JStr ''ringing''\<rparr>"
    using inc by (simp only: u)
  have f3: "incomingCall (prun (SockMessage w (Some (incoming_call_msg i r c t)) # es
                               @ [SockMessage w (Some (call_cancelled_msg i))]) p) = None"
    using c1 by (simp only: u)
  have f4: "incomingCall (prun (SockMessage w (Some (incoming_call_msg i r c t)) # es
                               @ [SockMessage w (Some (call_ended_msg i))]) p) = None"
    using c2 by (simp only: u)
  have f5: "keepalive_round w ch p =
           (ch\<lparr>idle_seconds := 0\<rparr>,
            p\<lparr>sockets := (sockets p)(w := (sockets p w)
                  \<lparr>pings_sent := Suc (pings_sent (sockets p w))\<rparr>)\<rparr>)"
    using assms(2) by (simp add: keepalive_round_def on_keepalive_def pingTick_def)
  have f6: "incomingCall (snd (keepalive_round w ch p)) = incomingCall p"
    by (simp add: f5)
  from f1 f2 f3 f4 f5 f6 show ?thesis by (intro conjI)
qed

lemma online_presence_eq:
  "online_presence =
     \<lparr>incomingCall = None, wsRef = Some 0, reconnectTimeoutRef = None,
      shouldReconnectRef = True,
      sockets = (\<lambda>w. \<lparr>readyState = CLOSED, pingInterval = None, pings_sent = 0\<rparr>)
                (0 := \<lparr>readyState = OPEN, pingInterval = Some 2, pings_sent = 0\<rparr>),
      n_sockets = 1, timeouts = [], intervals = [2, 1], next_timer = 3,
      refreshInterval = Some 1\<rparr>"
  by (simp add: online_presence_def presence0_def mount_def setupPresenceWebSocket_def
        no_token_def handleOpen_def Let_def eval_nat_numeral)

theorem incoming_call_tracking_witness:
  "0 < n_sockets online_presence \<and> readyState (sockets online_presence 0) = OPEN
   \<and> list_all is_keepalive [PingTick 0, SockMessage 0 (Some (JObj [(''type'', JStr ''pong'')]))]
   \<and> incomingCall (prun
        (SockMessage 0 (Some (incoming_call_msg (JNum 7) (JStr ''room-7'') (JStr ''alice'')
                                (JStr ''video'')))
         # [PingTick 0, SockMessage 0 (Some (JObj [(''type'', JStr ''pong'')]))])
        online_presence) =
        Some \<lparr>cd_id = JNum 7, cd_room_id = JStr ''room-7'', cd_caller_username = JStr ''alice'',
              cd_receiver_username = JStr [], cd_call_type = JStr ''video'',
              cd_status = JStr ''ringing''\<rparr>
   \<and> incomingCall (prun
        (SockMessage 0 (Some (incoming_call_msg (JNum 7) (JStr ''room-7'') (JStr ''alice'')
                                 (JStr ''video'')))
         # [PingTick 0, SockMessage 0 (Some (JObj [(''type'', JStr ''pong'')]))]
         @ [SockMessage 0 (Some (call_cancelled_msg (JNum 7)))]) online_presence) = None
   \<and> incomingCall (prun
        (SockMessage 0 (Some (incoming_call_msg (JNum 7) (JStr ''room-7'') (JStr ''alice'')
                                 (JStr ''video'')))
         # [PingTick 0, SockMessage 0 (Some (JObj [(''type'', JStr ''pong'')]))]
         @ [SockMessage 0 (Some (call_ended_msg (JNum 7)))]) online_presence) = None
   \<and> fst (keepalive_round 0 \<lparr>ch_user = 2, idle_seconds = 30\<rparr> online_presence)
       = \<lparr>ch_user = 2, idle_seconds = 0\<rparr>
   \<and> incomingCall (snd (keepalive_round 0 \<lparr>ch_user = 2, idle_seconds = 30\<rparr> online_presence))
       = None"
proof -
  have a: "0 < n_sockets online_presence" by (simp add: online_presence_eq)
  have b: "readyState (sockets online_presence 0) = OPEN" by (simp add: online_presence_eq)
  have c: "list_all is_keepalive
      [PingTick 0, SockMessage 0 (Some (JObj [(''type'', JStr ''pong'')]))]"
    by (simp add: unhandled_def)
  have d: "incomingCall online_presence = None" by (simp add: online_presence_eq)
  note w = incoming_call_tracking [OF a b c, of "JNum 7" "JStr ''room-7''" "JStr ''alice''"
      "JStr ''video''" "\<lparr>ch_user = 2, idle_seconds = 30\<rparr>"]
  from w have f: "incomingCall (prun
        (SockMessage 0 (Some (incoming_call_msg (JNum 7) (JStr ''room-7'') (JStr ''alice'')
                                (JStr ''video'')))
         # [PingTick 0, SockMessage 0 (Some (JObj [(''type'', JStr ''pong'')]))])
        online_presence) =
        Some \<lparr>cd_id = JNum 7, cd_room_id = JStr ''room-7'', cd_caller_username = JStr ''alice'',
              cd_receiver_username = JStr [], cd_call_type = JStr ''video'',
              cd_status = JStr ''ringing''\<rparr>" by blast
  from w have g: "incomingCall (prun
        (SockMessage 0 (Some (incoming_call_msg (JNum 7) (JStr ''room-7'') (JStr ''alice'')
                                 (JStr ''video'')))
         # [PingTick 0, SockMessage 0 (Some (JObj [(''type'', JStr ''pong'')]))]
         @ [SockMessage 0 (Some (call_cancelled_msg (JNum 7)))]) online_presence) = None"
    by blast
  from w have h: "incomingCall (prun
        (SockMessage 0 (Some (incoming_call_msg (JNum 7) (JStr ''room-7'') (JStr ''alice'')
                                 (JStr ''video'')))
         # [PingTick 0, SockMessage 0 (Some (JObj [(''type'', JStr ''pong'')]))]
         @ [SockMessage 0 (Some (call_ended_msg (JNum 7)))]) online_presence) = None"
    by blast
  from w have "keepalive_round 0 \<lparr>ch_user = 2, idle_seconds = 30\<rparr> online_presence =
           (\<lparr>ch_user = 2, idle_seconds = 30\<rparr>\<lparr>idle_seconds := 0\<rparr>,
            online_presence\<lparr>sockets := (sockets online_presence)(0 := (sockets online_presence 0)
                  \<lparr>pings_sent := Suc (pings_sent (sockets online_presence 0))\<rparr>)\<rparr>)"
    by blast
  then have i: "fst (keepalive_round 0 \<lparr>ch_user = 2, idle_seconds = 30\<rparr> online_presence)
       = \<lparr>ch_user = 2, idle_seconds = 0\<rparr>" by simp
  from w d have j: "incomingCall (snd (keepalive_round 0 \<lparr>ch_user = 2, idle_seconds = 30\<rparr>
       online_presence)) = None" by simp
  from a b c f g h i j show ?thesis by (intro conjI)
qed

subsection \<open>Reconnection of the presence channel\<close>

lemma setup_flag_cleared: "\<not> shouldReconnectRef p \<Longrightarrow> setupPresenceWebSocket tok p = p"
  by (simp add: setupPresenceWebSocket_def)

lemma setup_flag: "shouldReconnectRef (setupPresenceWebSocket tok p) = shouldReconnectRef p"
  by (simp add: setupPresenceWebSocket_def)

lemma setup_new_socket:
  "n_sockets (setupPresenceWebSocket tok p) \<noteq> n_sockets p
   \<Longrightarrow> shouldReconnectRef p \<and> \<not> no_token tok"
  by (auto simp: setupPresenceWebSocket_def split: if_splits)

lemma handleClose_flag: "shouldReconnectRef (handleClose w p) = shouldReconnectRef p"
  by (simp add: handleClose_def Let_def)

lemma handleClose_n: "n_sockets (handleClose w p) = n_sockets p"
  by (simp add: handleClose_def Let_def)

lemma handleClose_scheduled:
  "shouldReconnectRef p \<Longrightarrow>
     timeouts (handleClose w p) = timeouts p @ [(next_timer p, 3000)]
     \<and> reconnectTimeoutRef (handleClose w p) = Some (next_timer p)
     \<and> next_timer (handleClose w p) = Suc (next_timer p)"
  by (simp add: handleClose_def Let_def)

lemma handleClose_not_scheduled:
  "\<not> shouldReconnectRef p \<Longrightarrow>
     timeouts (handleClose w p) = timeouts p
     \<and> reconnectTimeoutRef (handleClose w p) = reconnectTimeoutRef p"
  by (simp add: handleClose_def Let_def)

lemma cleanup_flag: "\<not> shouldReconnectRef (cleanup p)"
  by (simp add: cleanup_def Let_def split: option.splits)

lemma cleanup_n: "n_sockets (cleanup p) = n_sockets p"
  by (simp add: cleanup_def Let_def split: option.splits)

lemma cleanup_timeouts:
  "timeouts (cleanup p) =
     (if truthy (reconnectTimeoutRef p) then clearTimeout (reconnectTimeoutRef p) (timeouts p)
      else timeouts p)"
  by (simp add: cleanup_def Let_def split: option.splits)

lemma cleanup_cancels_ref:
  "reconnectTimeoutRef p = Some t \<Longrightarrow> 0 < t \<Longrightarrow> t \<notin> fst ` set (timeouts (cleanup p))"
  by (auto simp: cleanup_timeouts truthy_def clearTimeout_def)

lemma pstep_unmounted:
  assumes "\<not> is_mount e" and "\<not> shouldReconnectRef p"
  shows "\<not> shouldReconnectRef (pstep e p) \<and> n_sockets (pstep e p) = n_sockets p"
proof (cases e)
  case (Mount tok)
  with assms show ?thesis by simp
next
  case Cleanup
  then show ?thesis by (simp add: cleanup_flag cleanup_n)
next
  case (SockOpen w)
  with assms show ?thesis by (simp add: handleOpen_def)
next
  case (SockMessage w m)
  with assms show ?thesis by (simp add: handleMessage_frame)
next
  case (SockClosing w)
  with assms show ?thesis by simp
next
  case (SockClose w)
  with assms show ?thesis by (simp add: handleClose_flag handleClose_n)
next
  case (TimerFires t tok)
  with assms show ?thesis by (simp add: timeoutFires_def setup_flag_cleared)
next
  case (PingTick w)
  with assms show ?thesis by (simp add: pingTick_def split: option.splits)
qed

lemma prun_unmounted:
  "list_all (\<lambda>e. \<not> is_mount e) es \<Longrightarrow> \<not> shouldReconnectRef p \<Longrightarrow>
   \<not> shouldReconnectRef (prun es p) \<and> n_sockets (prun es p) = n_sockets p"
proof (induction es arbitrary: p)
  case Nil
  then show ?case by simp
next
  case (Cons e es)
  from Cons.prems have e: "\<not> is_mount e" and es: "list_all (\<lambda>e. \<not> is_mount e) es" by simp_all
  from pstep_unmounted [OF e Cons.prems(2)]
  have 1: "\<not> shouldReconnectRef (pstep e p)" and 2: "n_sockets (pstep e p) = n_sockets p"
    by simp_all
  from Cons.IH [OF es 1] 2 show ?case by simp
qed

lemma mounted_okD:
  assumes "mounted_ok p"
  shows "shouldReconnectRef p" "0 < next_timer p"
    "\<And>w. w < n_sockets p \<Longrightarrow> readyState (sockets p w) \<noteq> CLOSED \<Longrightarrow> wsRef p = Some w"
    "\<And>x. x \<in> set (timeouts p) \<Longrightarrow> reconnectTimeoutRef p = Some (fst x) \<and> 0 < fst x"
    "\<And>w. timeouts p \<noteq> [] \<Longrightarrow> w < n_sockets p \<Longrightarrow> readyState (sockets p w) = CLOSED"
  using assms by (auto simp: mounted_ok_def)

lemma mounted_ok_no_timeouts:
  assumes "mounted_ok p" and "w < n_sockets p" and "readyState (sockets p w) \<noteq> CLOSED"
  shows "timeouts p = []"
  using mounted_okD(5) [OF assms(1) _ assms(2)] assms(3) by blast

lemma mounted_ok_open:
  assumes "mounted_ok p" and "w < n_sockets p" and "readyState (sockets p w) = CONNECTING"
  shows "mounted_ok (handleOpen w p)"
proof -
  have t: "timeouts p = []"
    using mounted_ok_no_timeouts [OF assms(1,2)] assms(3) by simp
  have r: "wsRef p = Some w"
    using mounted_okD(3) [OF assms(1,2)] assms(3) by simp
  show ?thesis
    using mounted_okD(1,2) [OF assms(1)] mounted_okD(3) [OF assms(1)] t r
    by (auto simp: mounted_ok_def handleOpen_def)
qed

lemma mounted_ok_closing:
  assumes "mounted_ok p" and "w < n_sockets p" and "readyState (sockets p w) = OPEN"
  shows "mounted_ok (p\<lparr>sockets := (sockets p)(w := (sockets p w)\<lparr>readyState := CLOSING\<rparr>)\<rparr>)"
proof -
  have t: "timeouts p = []"
    using mounted_ok_no_timeouts [OF assms(1,2)] assms(3) by simp
  have r: "wsRef p = Some w"
    using mounted_okD(3) [OF assms(1,2)] assms(3) by simp
  show ?thesis
    using mounted_okD(1,2) [OF assms(1)] mounted_okD(3) [OF assms(1)] t r
    by (auto simp: mounted_ok_def)
qed

lemma mounted_ok_close:
  assumes "mounted_ok p" and "w < n_sockets p" and "readyState (sockets p w) \<noteq> CLOSED"
  shows "mounted_ok (handleClose w p)"
proof -
  have t: "timeouts p = []"
    using mounted_ok_no_timeouts [OF assms] .
  have r: "wsRef p = Some w"
    using mounted_okD(3) [OF assms] .
  have others: "\<And>v. v < n_sockets p \<Longrightarrow> v \<noteq> w \<Longrightarrow> readyState (sockets p v) = CLOSED"
    using mounted_okD(3) [OF assms(1)] r by fastforce
  show ?thesis
    using mounted_okD(1,2) [OF assms(1)] t others
    by (auto simp: mounted_ok_def handleClose_def Let_def)
qed

lemma mounted_ok_fires:
  assumes "mounted_ok p" and "t \<in> fst ` set (timeouts p)"
  shows "mounted_ok (timeoutFires t tok p)"
proof -
  from assms(2) have ne: "timeouts p \<noteq> []" by auto
  have closed: "\<And>w. w < n_sockets p \<Longrightarrow> readyState (sockets p w) = CLOSED"
    using mounted_okD(5) [OF assms(1) ne] .
  have ref: "reconnectTimeoutRef p = Some t"
    using assms(2) mounted_okD(4) [OF assms(1)] by auto
  have "\<And>x. x \<in> set (timeouts p) \<Longrightarrow> fst x = t"
    using mounted_okD(4) [OF assms(1)] ref by auto
  then have empty: "filter (\<lambda>x. fst x \<noteq> t) (timeouts p) = []"
    by (auto simp: filter_empty_conv)
  show ?thesis
    using mounted_okD(1,2) [OF assms(1)] closed empty
    by (auto simp: mounted_ok_def timeoutFires_def setupPresenceWebSocket_def less_Suc_eq
             split: option.splits)
qed

lemma mounted_ok_step:
  assumes "mounted_ok p" and "\<not> is_effect e"
  shows "mounted_ok (pstep e p)"
proof (cases e)
  case (Mount tok)
  with assms show ?thesis by simp
next
  case Cleanup
  with assms show ?thesis by simp
next
  case (SockOpen w)
  with assms show ?thesis by (simp add: mounted_ok_open)
next
  case (SockMessage w m)
  with assms show ?thesis by (simp add: mounted_ok_def handleMessage_frame)
next
  case (SockClosing w)
  with assms show ?thesis by (simp add: mounted_ok_closing)
next
  case (SockClose w)
  with assms show ?thesis by (simp add: mounted_ok_close)
next
  case (TimerFires t tok)
  with assms show ?thesis
    by (cases "t \<in> fst ` set (timeouts p)") (simp_all add: mounted_ok_fires)
next
  case (PingTick w)
  with assms show ?thesis
    by (auto simp: mounted_ok_def pingTick_def split: option.splits)
qed

lemma mounted_ok_run:
  "mounted_ok p \<Longrightarrow> list_all (\<lambda>e. \<not> is_effect e) es \<Longrightarrow> mounted_ok (prun es p)"
proof (induction es arbitrary: p)
  case Nil
  then show ?case by simp
next
  case (Cons e es)
  from Cons.prems have "mounted_ok (pstep e p)" by (simp add: mounted_ok_step)
  with Cons show ?case by simp
qed

lemma mounted_ok_mount: "mounted_ok (mount tok presence0)"
  by (auto simp: mounted_ok_def mount_def presence0_def setupPresenceWebSocket_def Let_def)

lemma mounted_ok_cleanup:
  assumes "mounted_ok p"
  shows "timeouts (cleanup p) = []"
proof (cases "timeouts p")
  case Nil
  then show ?thesis by (simp add: cleanup_timeouts clearTimeout_def split: option.splits)
next
  case (Cons x xs)
  then have "x \<in> set (timeouts p)" by simp
  from mounted_okD(4) [OF assms this]
  have ref: "reconnectTimeoutRef p = Some (fst x)" and pos: "0 < fst x" by simp_all
  have "\<And>y. y \<in> set (timeouts p) \<Longrightarrow> fst y = fst x"
    using mounted_okD(4) [OF assms] ref by auto
  then have "filter (\<lambda>y. fst y \<noteq> fst x) (timeouts p) = []"
    by (auto simp: filter_empty_conv)
  with ref pos show ?thesis
    by (simp add: cleanup_timeouts truthy_def clearTimeout_def)
qed

lemma timeoutFires_once: "n_sockets (timeoutFires t tok p) \<le> Suc (n_sockets p)"
  by (simp add: timeoutFires_def setupPresenceWebSocket_def)

text \<open>
  What the reconnection does right. With the flag set, \<open>handleClose\<close> schedules
  exactly one reconnection task, 3000 ms ahead, and keeps its identifier in
  \<open>reconnectTimeoutRef\<close>; with the flag cleared it schedules nothing. A task that fires
  runs the setup once, and the setup constructs a socket only while the flag is set.
  The cleanup clears the flag and cancels the task held in \<open>reconnectTimeoutRef\<close>;
  after it, whatever happens short of a new run of the effect, no socket is
  constructed. Between the first run of the effect and its cleanup the task in
  \<open>reconnectTimeoutRef\<close> is the only one pending, so that cleanup leaves none.
\<close>

lemma reconnect_within_one_run:
  "(shouldReconnectRef p \<longrightarrow>
       timeouts (handleClose w p) = timeouts p @ [(next_timer p, 3000)]
       \<and> reconnectTimeoutRef (handleClose w p) = Some (next_timer p))
   \<and> (\<not> shouldReconnectRef p \<longrightarrow>
       timeouts (handleClose w p) = timeouts p \<and> setupPresenceWebSocket tok p = p)
   \<and> n_sockets (timeoutFires t tok p) \<le> Suc (n_sockets p)
   \<and> (n_sockets (setupPresenceWebSocket tok p) \<noteq> n_sockets p \<longrightarrow> shouldReconnectRef p)
   \<and> \<not> shouldReconnectRef (cleanup p)
   \<and> (\<forall>i. reconnectTimeoutRef p = Some i \<and> 0 < i \<longrightarrow> i \<notin> fst ` set (timeouts (cleanup p)))
   \<and> (list_all (\<lambda>e. \<not> is_mount e) es \<longrightarrow>
       n_sockets (prun es (cleanup p)) = n_sockets p
       \<and> \<not> shouldReconnectRef (prun es (cleanup p)))
   \<and> (list_all (\<lambda>e. \<not> is_effect e) es' \<longrightarrow>
       timeouts (cleanup (prun es' (mount tok presence0))) = [])"
proof (intro conjI impI allI)
  assume "shouldReconnectRef p"
  from handleClose_scheduled [OF this, of w]
  show "timeouts (handleClose w p) = timeouts p @ [(next_timer p, 3000)]"
    and "reconnectTimeoutRef (handleClose w p) = Some (next_timer p)" by simp_all
next
  assume n: "\<not> shouldReconnectRef p"
  from handleClose_not_scheduled [OF n, of w]
  show "timeouts (handleClose w p) = timeouts p" by simp
  from n show "setupPresenceWebSocket tok p = p" by (rule setup_flag_cleared)
next
  show "n_sockets (timeoutFires t tok p) \<le> Suc (n_sockets p)" by (rule timeoutFires_once)
next
  assume "n_sockets (setupPresenceWebSocket tok p) \<noteq> n_sockets p"
  then show "shouldReconnectRef p" using setup_new_socket by blast
next
  show "\<not> shouldReconnectRef (cleanup p)" by (rule cleanup_flag)
next
  fix i assume "reconnectTimeoutRef p = Some i \<and> 0 < i"
  then show "i \<notin> fst ` set (timeouts (cleanup p))" using cleanup_cancels_ref by blast
next
  assume es: "list_all (\<lambda>e. \<not> is_mount e) es"
  from prun_unmounted [OF es cleanup_flag, of p]
  show "n_sockets (prun es (cleanup p)) = n_sockets p"
    and "\<not> shouldReconnectRef (prun es (cleanup p))" by (simp_all add: cleanup_n)
next
  assume "list_all (\<lambda>e. \<not> is_effect e) es'"
  from mounted_ok_run [OF mounted_ok_mount this]
  show "timeouts (cleanup (prun es' (mount tok presence0))) = []"
    by (rule mounted_ok_cleanup)
qed

text \<open>
  Claim C8 fails when the effect runs again on the same refs (React's strict mode
  runs effect, cleanup, effect at once, and \<open>handleError\<close> expects it).
  The first cleanup closes socket 0, whose \<open>close\<close> event arrives after the second
  run has set the flag again: \<open>handleClose\<close> then schedules a reconnection (task 3)
  for a socket that the teardown closed, although its comment says "Only reconnect if
  we should (not during cleanup)". When socket 1 closes as well, \<open>handleClose\<close>
  overwrites \<open>reconnectTimeoutRef\<close> with task 4, and the next cleanup cancels only
  that one, although its comment says "Clear any pending reconnection timeout": task 3
  is still pending after the teardown. The flag is cleared, so the task will construct
  no socket when it fires.
\<close>

theorem second_run_leaves_reconnect_task:
  "shouldReconnectRef (prun [Mount (Some ''jwt''), Cleanup, Mount (Some ''jwt'')] presence0)
   \<and> readyState (sockets (prun [Mount (Some ''jwt''), Cleanup, Mount (Some ''jwt'')]
                                presence0) 0) = CLOSING
   \<and> timeouts (prun [Mount (Some ''jwt''), Cleanup, Mount (Some ''jwt'')] presence0) = []
   \<and> timeouts (prun [Mount (Some ''jwt''), Cleanup, Mount (Some ''jwt''),
                      SockClose 0] presence0) = [(3, 3000)]
   \<and> timeouts (prun [Mount (Some ''jwt''), Cleanup, Mount (Some ''jwt''),
                      SockClose 0, SockClose 1] presence0) = [(3, 3000), (4, 3000)]
   \<and> reconnectTimeoutRef (prun [Mount (Some ''jwt''), Cleanup, Mount (Some ''jwt''),
                      SockClose 0, SockClose 1] presence0) = Some 4
   \<and> timeouts (prun [Mount (Some ''jwt''), Cleanup, Mount (Some ''jwt''),
                      SockClose 0, SockClose 1, Cleanup] presence0) = [(3, 3000)]
   \<and> shouldReconnectRef (prun [Mount (Some ''jwt''), Cleanup, Mount (Some ''jwt''),
                      SockClose 0, SockClose 1, Cleanup] presence0) = False
   \<and> n_sockets (prun [Mount (Some ''jwt''), Cleanup, Mount (Some ''jwt''),
                      SockClose 0, SockClose 1, Cleanup, TimerFires 3 (Some ''jwt'')] presence0)
       = n_sockets (prun [Mount (Some ''jwt''), Cleanup, Mount (Some ''jwt''),
                      SockClose 0, SockClose 1, Cleanup] presence0)"
  by (simp add: presence0_def mount_def cleanup_def setupPresenceWebSocket_def
        no_token_def handleClose_def timeoutFires_def Let_def truthy_def clearTimeout_def
        clearInterval_def eval_nat_numeral)

section \<open>Properties of the call session hook\<close>

subsection \<open>ICE candidates before and after the remote description\<close>











lemma filter_negotiating_ice_loop:
  "filter negotiating (snd (ice_loop br h p cs s)) =
     (case cs of [] \<Rightarrow> []
      | c # cs' \<Rightarrow> (case addIceCandidate br c (peers s p) of None \<Rightarrow> [] | Some pc' \<Rightarrow> [Draining cs']))"
  by (cases cs; cases h) (simp_all split: option.splits)

















































subsection \<open>Ending a call\<close>

lemma endCall_resets:
  "localStream (endCall cap s) = None \<and> remoteStream (endCall cap s) = None
   \<and> \<not> isCallActive (endCall cap s) \<and> currentCall (endCall cap s) = None
   \<and> callStatus (endCall cap s) = [] \<and> audioEnabled (endCall cap s)
   \<and> videoEnabled (endCall cap s) \<and> pendingIceCandidates (endCall cap s) = []
   \<and> peerConnectionRef (endCall cap s) = None"
  by (simp add: endCall_def Let_def split: option.splits)

lemma endCall_socket:
  "socks (endCall cap s) =
     (case rtc_wsRef s of
        None \<Rightarrow> socks s
      | Some w \<Rightarrow>
          if ws_ready (socks s w) = OPEN
          then (socks s)(w := \<lparr>ws_ready = CLOSING, ws_sent = ws_sent (socks s w) @ [OutCallEnd]\<rparr>)
          else socks s)"
  by (simp add: endCall_def Let_def split: option.splits)

lemma endCall_peer:
  "peerConnectionRef s = Some p \<Longrightarrow> pc_closed (peers (endCall cap s) p)"
  by (simp add: endCall_def Let_def split: option.splits)

lemma endCall_streams:
  "streams (endCall cap s) =
     (case cap of
        None \<Rightarrow> streams s
      | Some m \<Rightarrow> (streams s)(m := map (\<lambda>t. t\<lparr>track_stopped := True\<rparr>) (streams s m)))"
  by (simp add: endCall_def Let_def split: option.splits)

lemma endCall_current_stops:
  "localStream s = Some m \<Longrightarrow> list_all track_stopped (streams (endCall_current s) m)"
  by (simp add: endCall_current_def endCall_streams list_all_iff)

text \<open>
  Claim C10 at the failing input. The caller is in a call with a live audio and a live
  video track when \<open>call-end\<close> arrives from the peer. The handler calls the
  \<open>endCall\<close> of the first render, whose \<open>localStream\<close> is \<open>null\<close>: the session
  state is reset, \<open>localStream\<close> included, but no track is stopped. The same holds
  for the receiver's handler. The \<open>endCall\<close> of the current render, which the page
  calls for the hang-up button, does stop both tracks.
\<close>

theorem remote_hangup_leaves_tracks_live:
  "localStream (startCall_onmessage any_browser 0 0 ''offer'' ''video'' InCallEnd calling_session)
     = None
   \<and> streams (startCall_onmessage any_browser 0 0 ''offer'' ''video'' InCallEnd calling_session) 0
     = [\<lparr>track_kind = Audio, track_enabled = True, track_stopped = False\<rparr>,
        \<lparr>track_kind = Video, track_enabled = True, track_stopped = False\<rparr>]
   \<and> streams (acceptCall_onmessage any_browser 0 0 InCallEnd calling_session) 0
     = [\<lparr>track_kind = Audio, track_enabled = True, track_stopped = False\<rparr>,
        \<lparr>track_kind = Video, track_enabled = True, track_stopped = False\<rparr>]
   \<and> streams (endCall_current calling_session) 0
     = [\<lparr>track_kind = Audio, track_enabled = True, track_stopped = True\<rparr>,
        \<lparr>track_kind = Video, track_enabled = True, track_stopped = True\<rparr>]"
  by (simp add: endCall_first_render_def endCall_current_def endCall_streams endCall_resets
        calling_session_def session0_def)

lemma endCall_from_reset: "endCall cap session0 = session0\<lparr>streams := streams (endCall cap session0)\<rparr>"
  by (simp add: endCall_def session0_def Let_def split: option.splits)

lemma endCall_idempotent: "endCall None session0 = session0"
  by (simp add: endCall_def session0_def)

lemma endCall_current_idempotent: "endCall_current session0 = session0"
  by (simp add: endCall_current_def endCall_def session0_def)

lemma endCall_twice: "endCall None (endCall cap s) = endCall cap s"
proof -
  have r: "rtc_wsRef (endCall cap s) = rtc_wsRef s"
    by (simp add: endCall_def Let_def split: option.splits)
  have o: "\<And>w. rtc_wsRef s = Some w \<Longrightarrow> ws_ready (socks (endCall cap s) w) \<noteq> OPEN"
    by (simp add: endCall_socket)
  have v: "localVideoSrc (endCall cap s) = map_option (\<lambda>x. None) (localVideoSrc s)"
    "remoteVideoSrc (endCall cap s) = map_option (\<lambda>x. None) (remoteVideoSrc s)"
    by (simp_all add: endCall_def Let_def split: option.splits)
  define s' where "s' = endCall cap s"
  have f: "localStream s' = None" "remoteStream s' = None" "\<not> isCallActive s'"
    "currentCall s' = None" "callStatus s' = []" "audioEnabled s'" "videoEnabled s'"
    "pendingIceCandidates s' = []" "peerConnectionRef s' = None"
    using endCall_resets [of cap s] by (simp_all add: s'_def)
  have w: "case rtc_wsRef s' of None \<Rightarrow> True | Some w \<Rightarrow> ws_ready (socks s' w) \<noteq> OPEN"
    using r o by (simp add: s'_def split: option.splits)
  have v': "map_option (\<lambda>x. None) (localVideoSrc s') = localVideoSrc s'"
    "map_option (\<lambda>x. None) (remoteVideoSrc s') = remoteVideoSrc s'"
    using v by (simp_all add: s'_def option.map_comp comp_def)
  have "endCall None s' = s'"
    using f w v' by (cases "rtc_wsRef s'") (simp_all add: endCall_def Let_def)
  then show ?thesis by (simp add: s'_def)
qed

end
